theory Spec2Isabelle
  imports Complex_Main
begin

section \<open>Text primitives of the Python runtime, on ASCII text\<close>

text \<open>
  Python strings are modelled as \<^typ>\<open>string\<close>. The character classes are those of
  Python 3 on the ASCII range: \<open>\s\<close> and \<open>str.strip\<close>/\<open>str.split\<close> use the code points
  9-13 and 28-32, \<open>\d\<close> is 0-9 and \<open>\w\<close> is a letter, a digit or the underscore.
  Bytes above 127 are in none of the classes and are left alone by \<open>lower\<close>.
\<close>

definition is_space :: "char \<Rightarrow> bool" where
  "is_space c = (let n = (of_char c :: nat) in (9 \<le> n \<and> n \<le> 13) \<or> (28 \<le> n \<and> n \<le> 32))"

definition is_digit :: "char \<Rightarrow> bool" where
  "is_digit c = (let n = (of_char c :: nat) in 48 \<le> n \<and> n \<le> 57)"

definition is_upper :: "char \<Rightarrow> bool" where
  "is_upper c = (let n = (of_char c :: nat) in 65 \<le> n \<and> n \<le> 90)"

definition is_lower :: "char \<Rightarrow> bool" where
  "is_lower c = (let n = (of_char c :: nat) in 97 \<le> n \<and> n \<le> 122)"

definition is_word :: "char \<Rightarrow> bool" where
  "is_word c = (is_upper c \<or> is_lower c \<or> is_digit c \<or> c = CHR ''_'')"

text \<open>\<open>str.lower\<close> on one character: an ASCII capital gets bit 5 set.\<close>

definition lower_char :: "char \<Rightarrow> char" where
  "lower_char c =
     (if is_upper c
      then (case c of Char b0 b1 b2 b3 b4 b5 b6 b7 \<Rightarrow> Char b0 b1 b2 b3 b4 True b6 b7)
      else c)"

definition lower :: "string \<Rightarrow> string" where
  "lower s = map lower_char s"

text \<open>\<open>str.upper\<close>, the mirror image.\<close>

definition upper_char :: "char \<Rightarrow> char" where
  "upper_char c =
     (if is_lower c
      then (case c of Char b0 b1 b2 b3 b4 b5 b6 b7 \<Rightarrow> Char b0 b1 b2 b3 b4 False b6 b7)
      else c)"

definition upper :: "string \<Rightarrow> string" where
  "upper s = map upper_char s"

text \<open>\<open>s.strip()\<close>: whitespace removed at both ends.\<close>

definition strip :: "string \<Rightarrow> string" where
  "strip s = rev (dropWhile is_space (rev (dropWhile is_space s)))"

text \<open>
  \<open>re.sub(r"[...]+", " ", s)\<close>: every maximal run of characters of the class \<open>P\<close> becomes
  one space. The space is emitted at the last character of the run.
\<close>

fun sub_runs :: "(char \<Rightarrow> bool) \<Rightarrow> string \<Rightarrow> string" where
  "sub_runs P [] = []"
| "sub_runs P [c] = [if P c then CHR '' '' else c]"
| "sub_runs P (c # d # cs) =
     (if P c then (if P d then sub_runs P (d # cs) else CHR '' '' # sub_runs P (d # cs))
      else c # sub_runs P (d # cs))"

text \<open>\<open>re.sub(r"\s+", " ", s)\<close>\<close>

definition collapse_ws :: "string \<Rightarrow> string" where
  "collapse_ws s = sub_runs is_space s"

text \<open>\<open>re.sub(r"[...]", " ", s)\<close> with a class of single characters.\<close>

definition sub_each :: "(char \<Rightarrow> bool) \<Rightarrow> string \<Rightarrow> string" where
  "sub_each P s = map (\<lambda>c. if P c then CHR '' '' else c) s"

text \<open>\<open>s.split()\<close>: the maximal runs of non-whitespace, in order.\<close>

fun split_acc :: "string \<Rightarrow> string \<Rightarrow> string list" where
  "split_acc w [] = (if w = [] then [] else [rev w])"
| "split_acc w (c # cs) =
     (if is_space c then (if w = [] then split_acc [] cs else rev w # split_acc [] cs)
      else split_acc (c # w) cs)"

definition split_ws :: "string \<Rightarrow> string list" where
  "split_ws s = split_acc [] s"

text \<open>\<open>" ".join(ws)\<close>\<close>

fun join_sp :: "string list \<Rightarrow> string" where
  "join_sp [] = []"
| "join_sp [w] = w"
| "join_sp (w # v # ws) = w @ CHR '' '' # join_sp (v # ws)"

text \<open>\<open>s.startswith(p)\<close> and \<open>a in s\<close> on strings.\<close>

fun startswith :: "string \<Rightarrow> string \<Rightarrow> bool" where
  "startswith s [] = True"
| "startswith [] (p # ps) = False"
| "startswith (c # cs) (p # ps) = (c = p \<and> startswith cs ps)"

fun contains :: "string \<Rightarrow> string \<Rightarrow> bool" where
  "contains [] a = (a = [])"
| "contains (c # cs) a = (startswith (c # cs) a \<or> contains cs a)"

text \<open>\<open>int(s)\<close> on a string of decimal digits, and \<open>str(n)\<close> on a natural number.\<close>

definition digit_val :: "char \<Rightarrow> nat" where
  "digit_val c = of_char c - 48"

definition int_of_digits :: "string \<Rightarrow> nat" where
  "int_of_digits s = foldl (\<lambda>a c. 10 * a + digit_val c) 0 s"

definition digit_char :: "nat \<Rightarrow> char" where
  "digit_char d = ''0123456789'' ! (d mod 10)"

fun str_nat :: "nat \<Rightarrow> string" where
  "str_nat n = (if n < 10 then [digit_char n] else str_nat (n div 10) @ [digit_char (n mod 10)])"

declare str_nat.simps [simp del]

section \<open>Movie-like discovery: \<open>parse_title_year_from_folder\<close>\<close>

text \<open>\<open>YEAR_RE = (19\d{2}|20\d{2})\<close> matched at the head of a string.\<close>

fun year_at :: "string \<Rightarrow> bool" where
  "year_at (a # b # c # d # rest) =
     (((a = CHR ''1'' \<and> b = CHR ''9'') \<or> (a = CHR ''2'' \<and> b = CHR ''0''))
      \<and> is_digit c \<and> is_digit d)"
| "year_at _ = False"

text \<open>\<open>YEAR_RE.search(s)\<close>: the start of the leftmost match.\<close>

fun year_search :: "string \<Rightarrow> nat option" where
  "year_search [] = None"
| "year_search (c # cs) =
     (if year_at (c # cs) then Some 0 else map_option Suc (year_search cs))"

definition is_bracket :: "char \<Rightarrow> bool" where
  "is_bracket c = (c \<in> set ''()[]{}_+'')"

definition dots_to_spaces :: "string \<Rightarrow> string" where
  "dots_to_spaces s = map (\<lambda>c. if c = CHR ''.'' then CHR '' '' else c) s"

text \<open>The first three lines of the parser: the normalised name.\<close>

definition normalize_folder :: "string \<Rightarrow> string" where
  "normalize_folder name = strip (collapse_ws (sub_runs is_bracket (dots_to_spaces name)))"

definition parse_title_year_from_folder :: "string \<Rightarrow> string \<times> int option" where
  "parse_title_year_from_folder name =
     (let s = normalize_folder name in
      case year_search s of
        None \<Rightarrow> (s, None)
      | Some i \<Rightarrow> (collapse_ws (strip (take i s)), Some (int (int_of_digits (take 4 (drop i s))))))"

section \<open>Show discovery: \<open>parse_show_from_string\<close>\<close>

definition clean_name :: "string \<Rightarrow> string" where
  "clean_name s =
     strip (collapse_ws (sub_runs (\<lambda>c. c \<in> set ''()[]{}'')
       (map (\<lambda>c. if c = CHR ''_'' \<or> c = CHR ''.'' then CHR '' '' else c) s)))"

text \<open>\<open>\d{1,2}\<close>, greedy: two digits when there are two, else one; the digits and the rest.\<close>

fun take_digits :: "string \<Rightarrow> (string \<times> string) option" where
  "take_digits (a # b # rest) =
     (if is_digit a then (if is_digit b then Some ([a, b], rest) else Some ([a], b # rest))
      else None)"
| "take_digits [a] = (if is_digit a then Some ([a], []) else None)"
| "take_digits [] = None"

definition is_sep :: "char \<Rightarrow> bool" where
  "is_sep c = (c \<in> set ''.-_ '')"

text \<open>
  \<open>SxxEyy_RE = \b[Ss]\s*(\d{1,2})\s*[.\-_ ]*[Ee]\s*(\d{1,2})\b\<close> matched at the head of
  \<open>s\<close>, where \<open>prev_word\<close> says that the character before \<open>s\<close> is a word character. The
  result is the season, the episode and the text after the match. Each quantifier takes
  its longest run: a shorter run never lets the rest of this pattern match (a digit given
  back is followed by a digit, a space given back by \<open>\s*\<close> is taken by the separator class).
\<close>

definition sxxeyy_at :: "bool \<Rightarrow> string \<Rightarrow> (nat \<times> nat \<times> string) option" where
  "sxxeyy_at prev_word s =
     (case s of
        [] \<Rightarrow> None
      | c # r0 \<Rightarrow>
          if prev_word \<or> (c \<noteq> CHR ''S'' \<and> c \<noteq> CHR ''s'') then None
          else (case take_digits (dropWhile is_space r0) of
                  None \<Rightarrow> None
                | Some (ds, r2) \<Rightarrow>
                    (case dropWhile is_sep (dropWhile is_space r2) of
                       [] \<Rightarrow> None
                     | e # r5 \<Rightarrow>
                         if e \<noteq> CHR ''E'' \<and> e \<noteq> CHR ''e'' then None
                         else (case take_digits (dropWhile is_space r5) of
                                 None \<Rightarrow> None
                               | Some (de, r7) \<Rightarrow>
                                   (case r7 of
                                      [] \<Rightarrow> Some (int_of_digits ds, int_of_digits de, r7)
                                    | x # _ \<Rightarrow>
                                        if is_word x then None
                                        else Some (int_of_digits ds, int_of_digits de, r7))))))"

text \<open>
  \<open>SxxEyy_RE.search(s)\<close>: the leftmost position with a match. The result is the text before
  the match (\<open>s[:m.start()]\<close>, accumulated in reverse in \<open>pre\<close>), the two numbers and the
  text after the match (\<open>s[m.end():]\<close>).
\<close>

fun sxxeyy_search :: "string \<Rightarrow> string \<Rightarrow> (string \<times> nat \<times> nat \<times> string) option" where
  "sxxeyy_search pre [] = None"
| "sxxeyy_search pre (c # cs) =
     (case sxxeyy_at (pre \<noteq> [] \<and> is_word (hd pre)) (c # cs) of
        Some (se, ep, rest) \<Rightarrow> Some (rev pre, se, ep, rest)
      | None \<Rightarrow> sxxeyy_search (c # pre) cs)"

text \<open>
  \<open>SxxEyy_RE\<close> tried at position \<open>n\<close> of \<open>s\<close>: the character before is \<open>s[n-1]\<close> when
  \<open>n > 0\<close>.
\<close>

definition match_at :: "string \<Rightarrow> nat \<Rightarrow> (nat \<times> nat \<times> string) option" where
  "match_at s n = sxxeyy_at (n \<noteq> 0 \<and> is_word (s ! (n - 1))) (drop n s)"

definition QUALITY_SET :: "string set" where
  "QUALITY_SET = {''2160P'', ''1080P'', ''720P'', ''480P''}"

record parsed_show =
  show_name :: string
  season :: nat
  episode :: nat
  ep_title :: string

definition parse_show_from_string :: "string \<Rightarrow> parsed_show option" where
  "parse_show_from_string text =
     (let s = clean_name text in
      case sxxeyy_search [] s of
        None \<Rightarrow> None
      | Some (pre, se, ep, post) \<Rightarrow>
          Some \<lparr> show_name = strip pre, season = se, episode = ep,
                 ep_title = strip (join_sp (takeWhile (\<lambda>t. upper t \<notin> QUALITY_SET)
                                              (split_ws (strip post)))) \<rparr>)"

section \<open>Episodes of a show: \<open>_add_or_update_episode\<close> and the episode key\<close>

text \<open>
  An item of a season's list. \<open>safe_size\<close> and \<open>safe_mtime\<close> read the file system; they
  are parameters \<open>fsize\<close> and \<open>fmtime\<close> of the model (0 where the file cannot be read).
\<close>

record episode_item =
  ep_eid :: "string option"
  ep_s :: nat
  ep_e :: nat
  ep_name :: string
  ep_file :: string
  ep_size :: nat
  ep_mtime :: rat

text \<open>
  The \<open>for item in lst\<close> loop: the first item with this episode number is updated and the
  function returns (\<open>Some\<close> the new list); \<open>None\<close> when the loop ends without a hit.
\<close>

fun update_episode ::
  "nat \<Rightarrow> string \<Rightarrow> string \<Rightarrow> nat \<Rightarrow> rat \<Rightarrow> episode_item list \<Rightarrow> episode_item list option" where
  "update_episode epnum title file_path sz mt [] = None"
| "update_episode epnum title file_path sz mt (item # rest) =
     (if ep_e item = epnum
      then (let item1 = (if sz > ep_size item
                         then item\<lparr> ep_file := file_path, ep_size := sz, ep_mtime := mt \<rparr>
                         else item);
                item2 = (if ep_name item1 = [] \<and> title \<noteq> []
                         then item1\<lparr> ep_name := title \<rparr> else item1)
            in Some (item2 # rest))
      else map_option ((#) item) (update_episode epnum title file_path sz mt rest))"

text \<open>
  The season's list after the call: \<open>lst\<close> is \<open>meta_for_show["seasons"][str(season)]\<close>,
  the empty list when the key was not there.
\<close>

definition add_or_update_list ::
  "(string \<Rightarrow> nat) \<Rightarrow> (string \<Rightarrow> rat) \<Rightarrow> episode_item list \<Rightarrow> nat \<Rightarrow> nat \<Rightarrow> string \<Rightarrow> string
     \<Rightarrow> episode_item list" where
  "add_or_update_list fsize fmtime lst sn epnum title file_path =
     (let sz = fsize file_path; mt = fmtime file_path in
      case update_episode epnum title file_path sz mt lst of
        Some lst' \<Rightarrow> lst'
      | None \<Rightarrow> lst @ [\<lparr> ep_eid = None, ep_s = sn, ep_e = epnum, ep_name = title,
                          ep_file = file_path, ep_size = sz, ep_mtime = mt \<rparr>])"

definition add_or_update_episode ::
  "(string \<Rightarrow> nat) \<Rightarrow> (string \<Rightarrow> rat) \<Rightarrow> (string \<rightharpoonup> episode_item list) \<Rightarrow> nat \<Rightarrow> nat \<Rightarrow> string
     \<Rightarrow> string \<Rightarrow> (string \<rightharpoonup> episode_item list)" where
  "add_or_update_episode fsize fmtime seasons sn epnum title file_path =
     (let season_key = str_nat sn;
          lst = (case seasons season_key of None \<Rightarrow> [] | Some l \<Rightarrow> l)
      in seasons(season_key \<mapsto> add_or_update_list fsize fmtime lst sn epnum title file_path))"

text \<open>\<open>f"{n:02d}"\<close> and the key \<open>f"{sid}_S{int(skey):02d}E{item['e']:02d}"\<close> of \<open>discover_shows\<close>.\<close>

definition pad2 :: "nat \<Rightarrow> string" where
  "pad2 n = (if n < 10 then CHR ''0'' # str_nat n else str_nat n)"

definition episode_key :: "string \<Rightarrow> string \<Rightarrow> nat \<Rightarrow> string" where
  "episode_key sid skey e = sid @ ''_S'' @ pad2 (int_of_digits skey) @ ''E'' @ pad2 e"

section \<open>Matching and scoring\<close>

text \<open>\<open>re.sub(r"^(the|a|an)\s+", "", t)\<close>: the alternatives are tried in this order.\<close>

fun ws_after :: "string \<Rightarrow> bool" where
  "ws_after [] = False"
| "ws_after (c # cs) = is_space c"

definition drop_article :: "string \<Rightarrow> string" where
  "drop_article t =
     (if startswith t ''the'' \<and> ws_after (drop 3 t) then dropWhile is_space (drop 3 t)
      else if startswith t ''a'' \<and> ws_after (drop 1 t) then dropWhile is_space (drop 1 t)
      else if startswith t ''an'' \<and> ws_after (drop 2 t) then dropWhile is_space (drop 2 t)
      else t)"

definition norm_title :: "string \<Rightarrow> string" where
  "norm_title t =
     drop_article (strip (collapse_ws
       (sub_each (\<lambda>c. \<not> is_word c \<and> \<not> is_space c) (lower t))))"

definition token_set :: "string \<Rightarrow> string set" where
  "token_set t = set (split_ws (norm_title t))"

text \<open>
  \<open>_year_score\<close>. \<open>not query_year\<close> holds for \<open>None\<close> and for the integer 0. The scores are
  Python floats; the model computes with the rationals the literals denote.
\<close>

definition year_score :: "int option \<Rightarrow> int option \<Rightarrow> rat" where
  "year_score query_year cand_year =
     (case (query_year, cand_year) of
        (Some q, Some c) \<Rightarrow>
          if q = 0 \<or> c = 0 then 0
          else (let diff = \<bar>q - c\<bar> in
                if diff = 0 then 25 / 100
                else if diff \<le> 1 then 18 / 100
                else if diff = 2 then 1 / 10
                else - (1 / 10))
      | _ \<Rightarrow> 0)"

definition strip_colons :: "string \<Rightarrow> string" where
  "strip_colons t = filter (\<lambda>c. c \<noteq> CHR '':'') t"

definition sim_score :: "string \<Rightarrow> string \<Rightarrow> int option \<Rightarrow> int option \<Rightarrow> bool \<Rightarrow> rat" where
  "sim_score qtitle ctitle qyear cyear has_poster =
     (let qs = token_set qtitle; cs = token_set ctitle;
          inter = card (qs \<inter> cs);
          union = max 1 (card (qs \<union> cs));
          jacc = of_nat inter / of_nat union;
          y = year_score qyear cyear;
          poster_bonus = (if has_poster then 5 / 100 else 0);
          colon_bonus =
            (if contains (strip_colons (norm_title ctitle)) (strip_colons (norm_title qtitle))
                \<or> contains (strip_colons (norm_title qtitle)) (strip_colons (norm_title ctitle))
             then 8 / 100 else 0)
      in jacc + y + poster_bonus + colon_bonus)"

section \<open>Provider data\<close>

text \<open>
  The provider's JSON objects, as records of the fields the code reads. A field is \<open>None\<close>
  when the key is missing or null. A search response is the list under its \<open>results\<close> key
  (empty when the key is missing or null); a request that fails, or that is not made for
  want of credentials, gives \<open>None\<close>. Result and detail objects are non-empty JSON objects,
  so \<open>if best\<close> and \<open>if det\<close> hold exactly when the value is not \<open>None\<close>.
\<close>

record movie_result =
  mr_id :: "int option"
  mr_title :: "string option"
  mr_original_title :: "string option"
  mr_release_date :: "string option"
  mr_poster_path :: "string option"
  mr_overview :: "string option"


text \<open>\<open>x or d\<close> on an optional string, and the truth value of optional values.\<close>

definition or_str :: "string option \<Rightarrow> string \<Rightarrow> string" where
  "or_str x d = (case x of None \<Rightarrow> d | Some s \<Rightarrow> if s = [] then d else s)"

definition truthy_str :: "string option \<Rightarrow> bool" where
  "truthy_str x = (case x of None \<Rightarrow> False | Some s \<Rightarrow> s \<noteq> [])"

definition truthy_int :: "int option \<Rightarrow> bool" where
  "truthy_int x = (case x of None \<Rightarrow> False | Some i \<Rightarrow> i \<noteq> 0)"

text \<open>\<open>int(d[:4]) if d[:4].isdigit() else None\<close>\<close>

definition year_of_date :: "string \<Rightarrow> int option" where
  "year_of_date d =
     (let p = take 4 d in
      if p \<noteq> [] \<and> list_all is_digit p then Some (int (int_of_digits p)) else None)"

section \<open>Picking the best candidate\<close>

text \<open>
  The loop of \<open>_pick_best_movie\<close> and \<open>_pick_best_tv\<close> over \<open>results[:10]\<close>, with the state
  \<open>(best, best_score)\<close>; \<open>sc\<close> is the score of a candidate.
\<close>

fun pick_loop :: "('c \<Rightarrow> rat) \<Rightarrow> 'c list \<Rightarrow> 'c option \<times> rat \<Rightarrow> 'c option \<times> rat" where
  "pick_loop sc [] st = st"
| "pick_loop sc (r # rs) (best, best_score) =
     (if sc r > best_score then pick_loop sc rs (Some r, sc r)
      else pick_loop sc rs (best, best_score))"

definition movie_cand_score :: "string \<Rightarrow> int option \<Rightarrow> movie_result \<Rightarrow> rat" where
  "movie_cand_score query_title query_year r =
     (let cand_title = or_str (mr_title r) (or_str (mr_original_title r) []);
          release_date = or_str (mr_release_date r) [];
          cyear = year_of_date release_date;
          poster = truthy_str (mr_poster_path r)
      in sim_score query_title cand_title query_year cyear poster)"

definition pick_best_movie ::
  "movie_result list option \<Rightarrow> string \<Rightarrow> int option \<Rightarrow> movie_result option" where
  "pick_best_movie result_json query_title query_year =
     (case result_json of
        None \<Rightarrow> None
      | Some results \<Rightarrow>
          fst (pick_loop (movie_cand_score query_title query_year) (take 10 results) (None, - 1)))"



section \<open>Query variants: \<open>try_search_variants\<close>\<close>

text \<open>
  \<open>re.sub(r"\b(19\d{2}|20\d{2})\b", "", t)\<close>: every year token with a word boundary on
  both sides is deleted; \<open>pw\<close> says that the character before is a word character.
\<close>

fun strip_year_tokens :: "bool \<Rightarrow> string \<Rightarrow> string" where
  "strip_year_tokens pw (a # b # c # d # rest) =
     (if \<not> pw \<and> year_at (a # b # c # d # rest)
           \<and> (case rest of [] \<Rightarrow> True | x # _ \<Rightarrow> \<not> is_word x)
      then strip_year_tokens True rest
      else a # strip_year_tokens (is_word a) (b # c # d # rest))"
| "strip_year_tokens pw (a # rest) = a # strip_year_tokens (is_word a) rest"
| "strip_year_tokens pw [] = []"

text \<open>\<open>str(y)\<close> for an integer and for \<open>None\<close>.\<close>

definition str_int :: "int \<Rightarrow> string" where
  "str_int i = (if i < 0 then CHR ''-'' # str_nat (nat (- i)) else str_nat (nat i))"

definition str_year :: "int option \<Rightarrow> string" where
  "str_year y = (case y of None \<Rightarrow> ''None'' | Some i \<Rightarrow> str_int i)"

text \<open>The list \<open>variants\<close> built at the start of \<open>try_search_variants\<close>.\<close>

definition t_base_of :: "string \<Rightarrow> bool \<Rightarrow> string" where
  "t_base_of title force_yearless =
     (if force_yearless then strip (collapse_ws (strip_year_tokens False title)) else title)"

definition colon_variant :: "string \<Rightarrow> string list" where
  "colon_variant t_base =
     (case split_ws (collapse_ws t_base) of
        [] \<Rightarrow> []
      | [w] \<Rightarrow> []
      | [w0, w1] \<Rightarrow> [w0 @ '': '' @ w1]
      | w0 # w1 # ws \<Rightarrow> [w0 @ '' '' @ w1 @ '': '' @ join_sp ws])"

definition variants_of :: "string \<Rightarrow> bool \<Rightarrow> string list" where
  "variants_of title force_yearless =
     (let t_base = t_base_of title force_yearless in
      [t_base,
       sub_runs (\<lambda>c. c = CHR ''.'' \<or> c = CHR ''_'') t_base,
       strip (sub_each (\<lambda>c. \<not> is_word c \<and> \<not> is_space c \<and> c \<noteq> CHR '':'') t_base)]
      @ (if force_yearless \<and> CHR '':'' \<notin> set t_base then colon_variant t_base else []))"

text \<open>
  The state of one \<open>try_search_variants\<close> call: the set \<open>seen\<close>, and the provider searches
  made so far, oldest first, each with the query text and the year it was sent with.
\<close>

record search_state =
  seen :: "string set"
  calls :: "(string \<times> int option) list"

type_synonym movie_search = "string \<Rightarrow> int option \<Rightarrow> movie_result list option"

text \<open>
  \<open>attempt(qtitle, y)\<close>. \<open>tmdb_search_movie\<close> sends the year only when it is truthy; the
  provider function \<open>search\<close> receives \<open>use_year\<close> as the code passes it.
\<close>

definition attempt ::
  "movie_search \<Rightarrow> bool \<Rightarrow> string \<Rightarrow> int option \<Rightarrow> search_state
     \<Rightarrow> (movie_result \<times> string) option \<times> search_state" where
  "attempt search force_yearless qtitle y st =
     (let key = lower qtitle @ ''|'' @ str_year y in
      if qtitle = [] \<or> key \<in> seen st then (None, st)
      else (let use_year = (if force_yearless then None else y);
                st' = st\<lparr> seen := insert key (seen st),
                          calls := calls st @ [(qtitle, use_year)] \<rparr>;
                data = search qtitle use_year
            in case data of
                 None \<Rightarrow> (None, st')
               | Some results \<Rightarrow>
                   if results = [] then (None, st')
                   else (case pick_best_movie data qtitle use_year of
                           None \<Rightarrow> (None, st')
                         | Some best \<Rightarrow> (Some (best, qtitle), st'))))"

text \<open>A sequence of attempts that stops at the first one with a result.\<close>

fun run_attempts ::
  "movie_search \<Rightarrow> bool \<Rightarrow> (string \<times> int option) list \<Rightarrow> search_state
     \<Rightarrow> (movie_result \<times> string) option \<times> search_state" where
  "run_attempts search fy [] st = (None, st)"
| "run_attempts search fy ((t, y) # rest) st =
     (case attempt search fy t y st of
        (Some res, st') \<Rightarrow> (Some res, st')
      | (None, st') \<Rightarrow> run_attempts search fy rest st')"

text \<open>
  The attempts of \<open>try_search_variants\<close> in the order the loops make them: for stand-up
  and documentaries (\<open>force_yearless\<close>) each variant without a year; for movies the year
  sweep over the variants, then the variants without a year; in both cases a last attempt
  with the colons of the first variant (\<open>variants[0]\<close>, which is \<open>t_base\<close>) turned into
  spaces.
\<close>

definition attempts_of :: "string \<Rightarrow> int option \<Rightarrow> bool \<Rightarrow> (string \<times> int option) list" where
  "attempts_of title year force_yearless =
     (let variants = variants_of title force_yearless;
          t0 = strip (collapse_ws (map (\<lambda>c. if c = CHR '':'' then CHR '' '' else c)
                                       (t_base_of title force_yearless)));
          year_sweep = (case year of
                          None \<Rightarrow> []
                        | Some y \<Rightarrow> if y = 0 then []
                                     else [Some y, Some (y - 1), Some (y + 1), Some (y - 2), Some (y + 2)])
      in if force_yearless
         then map (\<lambda>t. (t, None)) variants @ [(t0, None)]
         else concat (map (\<lambda>y. map (\<lambda>t. (t, y)) variants) year_sweep)
              @ map (\<lambda>t. (t, None)) variants @ [(t0, None)])"

definition try_search_variants ::
  "movie_search \<Rightarrow> string \<Rightarrow> int option \<Rightarrow> bool
     \<Rightarrow> (movie_result \<times> string) option \<times> search_state" where
  "try_search_variants search title year force_yearless =
     run_attempts search force_yearless (attempts_of title year force_yearless)
       \<lparr> seen = {}, calls = [] \<rparr>"

section \<open>The movie enrichment cache: \<open>enrich_movies\<close>\<close>

text \<open>
  The object returned by \<open>tmdb_movie_details\<close>: \<open>md_genres\<close> holds the \<open>name\<close> of each genre
  object, \<open>md_cast\<close> the \<open>name\<close> of each member of \<open>credits.cast\<close>, and \<open>md_release_dates\<close>
  each entry of \<open>release_dates.results\<close> as its country code and the \<open>certification\<close> of
  each of its releases.
\<close>

record movie_details =
  md_genres :: "string option list"
  md_runtime :: "int option"
  md_vote_average :: "rat option"
  md_tagline :: "string option"
  md_backdrop_path :: "string option"
  md_release_dates :: "(string option \<times> string option list) list"
  md_cast :: "string option list"

text \<open>
  An entry of \<open>tmdb_movie_cache.json\<close>, as \<open>enrich_movies\<close> writes it. \<open>genres\<close> and \<open>cast\<close>
  are read only through their truth value and written back as \<open>genres or []\<close>, so a
  missing list and an empty list are both the empty list here.
\<close>

record cache_entry =
  movie_id :: "int option"
  poster_url :: string
  overview :: string
  genres :: "string list"
  runtime :: "int option"
  vote :: "rat option"
  certification :: "string option"
  cast :: "string list"
  backdrop_url :: string
  tagline :: string

text \<open>\<open>cache.get(key, {}) or {}\<close> read through \<open>c.get(field, default)\<close>.\<close>

definition empty_entry :: cache_entry where
  "empty_entry = \<lparr> movie_id = None, poster_url = [], overview = [], genres = [],
                    runtime = None, vote = None, certification = None, cast = [],
                    backdrop_url = [], tagline = [] \<rparr>"

definition entry_or_empty :: "cache_entry option \<Rightarrow> cache_entry" where
  "entry_or_empty c = (case c of None \<Rightarrow> empty_entry | Some e \<Rightarrow> e)"

definition TMDB_IMG_BASE :: string where
  "TMDB_IMG_BASE = ''https://image.tmdb.org/t/p''"

definition POSTER_SIZE :: string where
  "POSTER_SIZE = ''w342''"

definition BACKDROP_SIZE :: string where
  "BACKDROP_SIZE = ''w1280''"

text \<open>The truthy names of a list of objects: \<open>[g.get("name") for g in gs if g.get("name")]\<close>.\<close>

definition truthy_names :: "string option list \<Rightarrow> string list" where
  "truthy_names ns = map (\<lambda>n. or_str n []) (filter truthy_str ns)"

text \<open>\<open>extract_cert_from_movie_release_dates\<close>\<close>

fun first_cert :: "string option list \<Rightarrow> string option" where
  "first_cert [] = None"
| "first_cert (r # rs) =
     (let cert = strip (or_str r []) in if cert \<noteq> [] then Some cert else first_cert rs)"

fun extract_cert_from_movie_release_dates ::
  "(string option \<times> string option list) list \<Rightarrow> string option" where
  "extract_cert_from_movie_release_dates [] = None"
| "extract_cert_from_movie_release_dates ((country, releases) # es) =
     (if country = Some ''US''
      then (case first_cert releases of
              Some cert \<Rightarrow> Some cert
            | None \<Rightarrow> extract_cert_from_movie_release_dates es)
      else extract_cert_from_movie_release_dates es)"

record provider =
  p_search :: movie_search
  p_details :: "int \<Rightarrow> movie_details option"

definition need_details_of :: "cache_entry \<Rightarrow> bool" where
  "need_details_of c =
     (\<not> (genres c \<noteq> [] \<and> runtime c \<noteq> None \<and> vote c \<noteq> None \<and> certification c \<noteq> None
         \<and> cast c \<noteq> []))"

text \<open>
  The assignments under \<open>if best:\<close>: the best search result merged into \<open>movie_id\<close>,
  \<open>poster_url\<close> and \<open>overview\<close>.
\<close>

definition merge_best :: "movie_result \<Rightarrow> cache_entry \<Rightarrow> cache_entry" where
  "merge_best best c =
     c\<lparr> movie_id := (if truthy_int (mr_id best) then mr_id best else movie_id c),
        poster_url := (case mr_poster_path best of
                         None \<Rightarrow> poster_url c
                       | Some pp \<Rightarrow> if pp = [] then poster_url c
                                    else TMDB_IMG_BASE @ ''/'' @ POSTER_SIZE @ pp),
        overview := strip (or_str (mr_overview best) (overview c)) \<rparr>"

text \<open>
  The first block of the loop body: the search and the merge of its result.
  \<open>enrich_movies\<close> calls \<open>try_search_variants\<close> with the title and the year only, so
  \<open>force_yearless\<close> has its default \<open>False\<close>.
\<close>

definition search_stage ::
  "provider \<Rightarrow> string \<Rightarrow> int option \<Rightarrow> cache_entry \<Rightarrow> cache_entry \<times> (string \<times> int option) list" where
  "search_stage P title year c =
     (if \<not> truthy_int (movie_id c) \<or> need_details_of c \<or> poster_url c = [] \<or> overview c = []
      then (case try_search_variants (p_search P) title year False of
              (Some (best, used_title), st) \<Rightarrow> (merge_best best c, calls st)
            | (None, st) \<Rightarrow> (c, calls st))
      else (c, []))"

text \<open>The assignments under \<open>if det:\<close>: the details object merged into the entry.\<close>

definition merge_details :: "movie_details \<Rightarrow> cache_entry \<Rightarrow> cache_entry" where
  "merge_details det c =
     c\<lparr> genres := (if genres c \<noteq> [] then genres c else truthy_names (md_genres det)),
        runtime := (if runtime c = None then md_runtime det else runtime c),
        vote := (if vote c = None then md_vote_average det else vote c),
        tagline := strip (or_str (md_tagline det) (tagline c)),
        backdrop_url :=
          (if truthy_str (md_backdrop_path det) \<and> backdrop_url c = []
           then TMDB_IMG_BASE @ ''/'' @ BACKDROP_SIZE @ or_str (md_backdrop_path det) []
           else backdrop_url c),
        certification :=
          (if truthy_str (certification c) then certification c
           else extract_cert_from_movie_release_dates (md_release_dates det)),
        cast := (if cast c \<noteq> [] then cast c else take 5 (truthy_names (md_cast det))) \<rparr>"

text \<open>
  The second block: the details request and its merge. \<open>need_details\<close> is the value
  computed from the cache entry before the search.
\<close>

definition details_stage :: "provider \<Rightarrow> bool \<Rightarrow> cache_entry \<Rightarrow> cache_entry" where
  "details_stage P need_details c =
     (case movie_id c of
        None \<Rightarrow> c
      | Some mid \<Rightarrow>
          if mid \<noteq> 0 \<and> (need_details \<or> backdrop_url c = [] \<or> tagline c = [])
          then (case p_details P mid of
                  None \<Rightarrow> c
                | Some det \<Rightarrow> merge_details det c)
          else c)"

text \<open>
  The entry stored under the item's key, and the searches made for it. The dictionary
  literal written to the cache is the record itself: \<open>genres or []\<close>, \<open>cast or []\<close>,
  \<open>backdrop or ""\<close> and \<open>tagline or ""\<close> change nothing on lists and strings.
\<close>

definition enrich_entry ::
  "provider \<Rightarrow> string \<Rightarrow> int option \<Rightarrow> cache_entry option
     \<Rightarrow> cache_entry \<times> (string \<times> int option) list" where
  "enrich_entry P title year c0 =
     (let c = entry_or_empty c0;
          need_details = need_details_of c;
          (c1, log) = search_stage P title year c
      in (details_stage P need_details c1, log))"

text \<open>
  A catalog item, with the fields \<open>enrich_movies\<close> reads for the cache, and the cache file:
  a JSON object, kept as the list of its keys and values in file order.
\<close>

record catalog_item =
  item_id :: string
  item_title :: string
  item_year :: "int option"

type_synonym movie_cache = "(string \<times> cache_entry) list"

definition cache_key :: "catalog_item \<Rightarrow> string" where
  "cache_key item = item_title item @ ''|'' @ str_year (item_year item)"

text \<open>\<open>cache[key] = v\<close>: an existing key keeps its place, a new key goes last.\<close>

fun cache_put :: "string \<Rightarrow> cache_entry \<Rightarrow> movie_cache \<Rightarrow> movie_cache" where
  "cache_put k v [] = [(k, v)]"
| "cache_put k v ((k', v') # rest) =
     (if k' = k then (k, v) # rest else (k', v') # cache_put k v rest)"

text \<open>
  \<open>enrich_movies\<close>: the loop over the items. The state is the cache, which is saved to the
  file after every item, and the log of the provider searches.
\<close>

definition enrich_step ::
  "provider \<Rightarrow> catalog_item \<Rightarrow> movie_cache \<times> (string \<times> int option) list
     \<Rightarrow> movie_cache \<times> (string \<times> int option) list" where
  "enrich_step P item st =
     (let (cache, log) = st;
          key = cache_key item;
          (entry, l) = enrich_entry P (item_title item) (item_year item) (map_of cache key)
      in (cache_put key entry cache, log @ l))"

definition enrich_movies ::
  "provider \<Rightarrow> movie_cache \<Rightarrow> catalog_item list \<Rightarrow> movie_cache \<times> (string \<times> int option) list" where
  "enrich_movies P cache items = foldl (\<lambda>st item. enrich_step P item st) (cache, []) items"




text \<open>
  \<open>build_site\<close> sends the movies, the stand-up specials and the documentaries through the
  same \<open>enrich_movies\<close>, one after the other, on the same cache file.
\<close>

definition build_site_enrich ::
  "provider \<Rightarrow> movie_cache \<Rightarrow> catalog_item list \<Rightarrow> catalog_item list \<Rightarrow> catalog_item list
     \<Rightarrow> movie_cache \<times> (string \<times> int option) list" where
  "build_site_enrich P cache movies standup docs =
     (let (c1, l1) = enrich_movies P cache movies;
          (c2, l2) = enrich_movies P c1 standup;
          (c3, l3) = enrich_movies P c2 docs
      in (c3, l1 @ l2 @ l3))"

section \<open>The show enrichment cache: the merge of \<open>enrich_shows\<close>\<close>











section \<open>Playback: \<open>launch_and_render\<close>, \<open>launch_episode\<close> and \<open>_launch\<close>\<close>

text \<open>
  What the handler reads from its surroundings: the configured roots, the JSON index
  files (\<open>load_cache\<close> of a path, the empty object when the file cannot be read), the file
  system calls, and whether \<open>subprocess.Popen\<close> of a command starts a process (when it
  raises, \<open>_launch\<close> swallows the exception and nothing runs).
\<close>

datatype category = Movies | Standup | Docs

record server_env =
  movies_root :: string
  shows_root :: string
  standup_root :: string
  docs_root :: string
  site_dir :: string
  load_cache :: "string \<Rightarrow> (string \<rightharpoonup> string)"
  isfile :: "string \<Rightarrow> bool"
  isdir :: "string \<Rightarrow> bool"
  realpath :: "string \<Rightarrow> string"
  popen_starts :: "string list \<Rightarrow> bool"

definition PREFER_VLC :: bool where
  "PREFER_VLC = True"

text \<open>\<open>os.path.join\<close> of a directory and a relative file name.\<close>

definition path_join :: "string \<Rightarrow> string \<Rightarrow> string" where
  "path_join a b =
     (if startswith b ''/'' then b
      else if a = [] \<or> last a = CHR ''/'' then a @ b
      else a @ ''/'' @ b)"

text \<open>\<open>_launch\<close>: the list of the processes started, as their command lines.\<close>

definition launch :: "server_env \<Rightarrow> string \<Rightarrow> string \<Rightarrow> string list list" where
  "launch env filepath base_root =
     (let rp = realpath env filepath;
          base = realpath env base_root
      in if \<not> startswith rp base then []
         else (let cmd = (if PREFER_VLC \<and> isdir env ''/Applications/VLC.app''
                          then [''open'', ''-a'', ''VLC'', filepath]
                          else [''open'', filepath])
               in if popen_starts env cmd then [cmd] else []))"

definition root_of :: "server_env \<Rightarrow> category \<Rightarrow> string" where
  "root_of env k = (case k of Movies \<Rightarrow> movies_root env
                            | Standup \<Rightarrow> standup_root env
                            | Docs \<Rightarrow> docs_root env)"

text \<open>The processes started by a request \<open>/play_...?id=mid\<close> and by \<open>/play_ep?id=eid\<close>.\<close>

definition launch_and_render :: "server_env \<Rightarrow> category \<Rightarrow> string \<Rightarrow> string \<Rightarrow> string list list" where
  "launch_and_render env active_key idx_json mid =
     (let mapping = load_cache env (path_join (site_dir env) idx_json);
          filepath = (case mapping mid of None \<Rightarrow> [] | Some p \<Rightarrow> p)
      in if filepath \<noteq> [] \<and> isfile env filepath
         then launch env filepath (root_of env active_key)
         else [])"

definition launch_episode :: "server_env \<Rightarrow> string \<Rightarrow> string list list" where
  "launch_episode env eid =
     (let idx = load_cache env (path_join (site_dir env) ''episodes_index.json'');
          filepath = (case idx eid of None \<Rightarrow> [] | Some p \<Rightarrow> p)
      in if filepath \<noteq> [] \<and> isfile env filepath
         then launch env filepath (shows_root env)
         else [])"

section \<open>The score as the specification words it\<close>






section \<open>Example inputs\<close>

text \<open>A server whose movie index knows one id, and whose episode index knows one key.\<close>

definition demo_env :: server_env where
  "demo_env =
     \<lparr> movies_root = ''/lib/movies'', shows_root = ''/lib/shows'',
       standup_root = ''/lib/standup'', docs_root = ''/lib/docs'', site_dir = ''/lib/movies/_cinema_site'',
       load_cache = (\<lambda>p. if p = ''/lib/movies/_cinema_site/movies_index.json''
                          then [''m1'' \<mapsto> ''/lib/movies/Heat 1995/heat.mkv'']
                          else if p = ''/lib/movies/_cinema_site/episodes_index.json''
                          then [''tv1_S01E02'' \<mapsto> ''/lib/shows/Show/Show.S01E02.mkv'']
                          else Map.empty),
       isfile = (\<lambda>p. p = ''/lib/movies/Heat 1995/heat.mkv'' \<or> p = ''/lib/shows/Show/Show.S01E02.mkv''),
       isdir = (\<lambda>p. False),
       realpath = (\<lambda>p. p),
       popen_starts = (\<lambda>cmd. True) \<rparr>"

text \<open>A file system with a small and a large copy of one episode, and the item of the small one.\<close>

definition demo_fsize :: "string \<Rightarrow> nat" where
  "demo_fsize p = (if p = ''/lib/shows/Show/Show.S01E02.1080p.mkv'' then 2000000000
                   else if p = ''/lib/shows/Show/Show.S01E02.mkv'' then 700000000 else 0)"

definition demo_fmtime :: "string \<Rightarrow> rat" where
  "demo_fmtime p = (if p = ''/lib/shows/Show/Show.S01E02.1080p.mkv'' then 1700000000 else 0)"

definition demo_item :: episode_item where
  "demo_item = \<lparr> ep_eid = None, ep_s = 1, ep_e = 2, ep_name = [],
                 ep_file = ''/lib/shows/Show/Show.S01E02.mkv'', ep_size = 700000000,
                 ep_mtime = 1600000000 \<rparr>"







text \<open>The catalog item of the stand-up folder "Comedian Title Special 2021".\<close>

definition demo_standup_item :: catalog_item where
  "demo_standup_item =
     \<lparr> item_id = ''s1'',
       item_title = fst (parse_title_year_from_folder ''Comedian Title Special 2021''),
       item_year = snd (parse_title_year_from_folder ''Comedian Title Special 2021'') \<rparr>"




text \<open>
  A cached movie entry with every field but the poster and the tagline populated, the same
  entry with a poster and no overview, and a cached show entry with a search result that
  has no first air date.
\<close>

definition demo_cached :: cache_entry where
  "demo_cached =
     \<lparr> movie_id = Some 5, poster_url = [], overview = ''Old text'', genres = [''Old''],
       runtime = Some 99, vote = Some 1, certification = Some ''R'', cast = [''Zed''],
       backdrop_url = ''https://image.tmdb.org/t/p/w1280/old.jpg'', tagline = [] \<rparr>"

definition demo_cached_poster :: cache_entry where
  "demo_cached_poster =
     demo_cached\<lparr> poster_url := ''https://image.tmdb.org/t/p/w342/old.jpg'', overview := [] \<rparr>"





section \<open>The year search finds the first year pattern\<close>







section \<open>Playback is guarded\<close>

lemma startswith_iff: "startswith s p \<longleftrightarrow> (\<exists>r. s = p @ r)"
  by (induction s p rule: startswith.induct) auto

lemma launch_cases:
  "launch env filepath base_root \<noteq> [] \<Longrightarrow>
     startswith (realpath env filepath) (realpath env base_root)
     \<and> (launch env filepath base_root = [[''open'', ''-a'', ''VLC'', filepath]]
        \<or> launch env filepath base_root = [[''open'', filepath]])"
  by (auto simp: launch_def Let_def split: if_splits)

text \<open>
  Claim C10. A request starts a media-player process only if its id is a key of the
  index file of the site directory, the path stored there is not empty and is an existing
  file, and the real path of that file has the real path of the category's library root
  (the shows root for an episode) as a string prefix. In that case exactly one process is
  started, \<open>open\<close> on that path; in every other case none is.
\<close>

theorem launch_only_under_root:
  "(launch_and_render env k idx_json mid \<noteq> [] \<longrightarrow>
      (\<exists>path rest.
          load_cache env (path_join (site_dir env) idx_json) mid = Some path
          \<and> path \<noteq> [] \<and> isfile env path
          \<and> realpath env path = realpath env (root_of env k) @ rest
          \<and> (launch_and_render env k idx_json mid = [[''open'', ''-a'', ''VLC'', path]]
             \<or> launch_and_render env k idx_json mid = [[''open'', path]])))
   \<and> (launch_episode env eid \<noteq> [] \<longrightarrow>
      (\<exists>path rest.
          load_cache env (path_join (site_dir env) ''episodes_index.json'') eid = Some path
          \<and> path \<noteq> [] \<and> isfile env path
          \<and> realpath env path = realpath env (shows_root env) @ rest
          \<and> (launch_episode env eid = [[''open'', ''-a'', ''VLC'', path]]
             \<or> launch_episode env eid = [[''open'', path]])))"
proof (intro conjI impI)
  assume a: "launch_and_render env k idx_json mid \<noteq> []"
  then obtain path where p: "load_cache env (path_join (site_dir env) idx_json) mid = Some path"
    by (cases "load_cache env (path_join (site_dir env) idx_json) mid")
       (auto simp: launch_and_render_def Let_def)
  with a have g: "path \<noteq> []" "isfile env path"
    and l: "launch_and_render env k idx_json mid = launch env path (root_of env k)"
    by (auto simp: launch_and_render_def Let_def split: if_splits)
  from a l have "launch env path (root_of env k) \<noteq> []" by simp
  from launch_cases [OF this] obtain rest where
    "realpath env path = realpath env (root_of env k) @ rest"
    and "launch env path (root_of env k) = [[''open'', ''-a'', ''VLC'', path]]
         \<or> launch env path (root_of env k) = [[''open'', path]]"
    by (auto simp: startswith_iff)
  with p g l show "\<exists>path rest.
          load_cache env (path_join (site_dir env) idx_json) mid = Some path
          \<and> path \<noteq> [] \<and> isfile env path
          \<and> realpath env path = realpath env (root_of env k) @ rest
          \<and> (launch_and_render env k idx_json mid = [[''open'', ''-a'', ''VLC'', path]]
             \<or> launch_and_render env k idx_json mid = [[''open'', path]])"
    by auto
next
  assume a: "launch_episode env eid \<noteq> []"
  then obtain path where
    p: "load_cache env (path_join (site_dir env) ''episodes_index.json'') eid = Some path"
    by (cases "load_cache env (path_join (site_dir env) ''episodes_index.json'') eid")
       (auto simp: launch_episode_def Let_def)
  with a have g: "path \<noteq> []" "isfile env path"
    and l: "launch_episode env eid = launch env path (shows_root env)"
    by (auto simp: launch_episode_def Let_def split: if_splits)
  from a l have "launch env path (shows_root env) \<noteq> []" by simp
  from launch_cases [OF this] obtain rest where
    "realpath env path = realpath env (shows_root env) @ rest"
    and "launch env path (shows_root env) = [[''open'', ''-a'', ''VLC'', path]]
         \<or> launch env path (shows_root env) = [[''open'', path]]"
    by (auto simp: startswith_iff)
  with p g l show "\<exists>path rest.
          load_cache env (path_join (site_dir env) ''episodes_index.json'') eid = Some path
          \<and> path \<noteq> [] \<and> isfile env path
          \<and> realpath env path = realpath env (shows_root env) @ rest
          \<and> (launch_episode env eid = [[''open'', ''-a'', ''VLC'', path]]
             \<or> launch_episode env eid = [[''open'', path]])"
    by auto
qed

theorem launch_only_under_root_witness:
  "launch_and_render demo_env Movies ''movies_index.json'' ''m1'' \<noteq> []
   \<and> launch_episode demo_env ''tv1_S01E02'' \<noteq> []
   \<and> (\<exists>path rest.
          load_cache demo_env (path_join (site_dir demo_env) ''movies_index.json'') ''m1'' = Some path
          \<and> path \<noteq> [] \<and> isfile demo_env path
          \<and> realpath demo_env path = realpath demo_env (root_of demo_env Movies) @ rest
          \<and> (launch_and_render demo_env Movies ''movies_index.json'' ''m1''
                = [[''open'', ''-a'', ''VLC'', path]]
             \<or> launch_and_render demo_env Movies ''movies_index.json'' ''m1'' = [[''open'', path]]))
   \<and> (\<exists>path rest.
          load_cache demo_env (path_join (site_dir demo_env) ''episodes_index.json'') ''tv1_S01E02''
            = Some path
          \<and> path \<noteq> [] \<and> isfile demo_env path
          \<and> realpath demo_env path = realpath demo_env (shows_root demo_env) @ rest
          \<and> (launch_episode demo_env ''tv1_S01E02'' = [[''open'', ''-a'', ''VLC'', path]]
             \<or> launch_episode demo_env ''tv1_S01E02'' = [[''open'', path]]))"
proof -
  have m: "launch_and_render demo_env Movies ''movies_index.json'' ''m1''
             = [[''open'', ''/lib/movies/Heat 1995/heat.mkv'']]"
    by (simp add: launch_and_render_def launch_def demo_env_def path_join_def root_of_def
                  PREFER_VLC_def Let_def)
  have e: "launch_episode demo_env ''tv1_S01E02'' = [[''open'', ''/lib/shows/Show/Show.S01E02.mkv'']]"
    by (simp add: launch_episode_def launch_def demo_env_def path_join_def
                  PREFER_VLC_def Let_def)
  from m have m': "launch_and_render demo_env Movies ''movies_index.json'' ''m1'' \<noteq> []" by simp
  from e have e': "launch_episode demo_env ''tv1_S01E02'' \<noteq> []" by simp
  from launch_only_under_root [of demo_env Movies "''movies_index.json''" "''m1''" "''tv1_S01E02''"]
       m' e'
  show ?thesis by blast
qed

section \<open>One item per episode number, the larger file wins\<close>

lemma update_episode_None:
  "update_episode epnum title fp sz mt lst = None \<longleftrightarrow> (\<forall>item\<in>set lst. ep_e item \<noteq> epnum)"
  by (induction lst) (auto simp: Let_def)

lemma update_episode_numbers:
  "update_episode epnum title fp sz mt lst = Some lst' \<Longrightarrow> map ep_e lst' = map ep_e lst"
  by (induction lst arbitrary: lst') (auto simp: Let_def split: if_splits)

lemma update_episode_item:
  assumes "update_episode epnum title fp sz mt lst = Some lst'"
    and "distinct (map ep_e lst)"
    and "item \<in> set lst" and "ep_e item = epnum"
  shows "\<exists>item'\<in>set lst'. ep_e item' = epnum
           \<and> ep_file item' = (if sz > ep_size item then fp else ep_file item)
           \<and> ep_size item' = (if sz > ep_size item then sz else ep_size item)
           \<and> ep_mtime item' = (if sz > ep_size item then mt else ep_mtime item)
           \<and> ep_name item' = (if ep_name item = [] \<and> title \<noteq> [] then title else ep_name item)
           \<and> ep_s item' = ep_s item \<and> ep_eid item' = ep_eid item"
  using assms
proof (induction lst arbitrary: lst')
  case Nil
  then show ?case by simp
next
  case (Cons x xs)
  show ?case
  proof (cases "ep_e x = epnum")
    case True
    with Cons.prems have "item = x" by (auto simp: image_iff)
    with True Cons.prems(1) show ?thesis by (auto simp: Let_def)
  next
    case False
    with Cons.prems obtain ys where ys: "update_episode epnum title fp sz mt xs = Some ys"
      and l: "lst' = x # ys" by auto
    from False Cons.prems have "item \<in> set xs" by auto
    from Cons.IH [OF ys _ this] Cons.prems l show ?thesis by auto
  qed
qed

lemma update_episode_others:
  assumes "update_episode epnum title fp sz mt lst = Some lst'"
    and "item \<in> set lst" and "ep_e item \<noteq> epnum"
  shows "item \<in> set lst'"
  using assms by (induction lst arbitrary: lst') (auto simp: Let_def split: if_splits)

text \<open>
  Claim C7. Let the list of a season hold each episode number at most once. After
  \<open>_add_or_update_episode\<close> it still does. If the list had an item with the new file's
  episode number, no item is added, the other items stay, and that item's file (with its
  size and time) is the new file exactly when the new file is strictly larger, else what
  it was; its title is the new title when it had none and the new one is not empty, else
  what it was. If the list had no such item, the new file is appended as a new item. The
  list is stored under the season's key and the other seasons are not touched.
\<close>

theorem add_or_update_episode_keeps_larger:
  assumes "distinct (map ep_e lst)"
  shows "distinct (map ep_e (add_or_update_list fsize fmtime lst sn epnum title fp))
    \<and> (\<forall>item\<in>set lst. ep_e item = epnum \<longrightarrow>
          length (add_or_update_list fsize fmtime lst sn epnum title fp) = length lst
          \<and> (\<exists>item'\<in>set (add_or_update_list fsize fmtime lst sn epnum title fp).
                ep_e item' = epnum
                \<and> ep_file item' = (if fsize fp > ep_size item then fp else ep_file item)
                \<and> ep_size item' = (if fsize fp > ep_size item then fsize fp else ep_size item)
                \<and> ep_mtime item' = (if fsize fp > ep_size item then fmtime fp else ep_mtime item)
                \<and> ep_name item' = (if ep_name item = [] \<and> title \<noteq> [] then title
                                     else ep_name item)))
    \<and> (\<forall>item\<in>set lst. ep_e item \<noteq> epnum \<longrightarrow>
          item \<in> set (add_or_update_list fsize fmtime lst sn epnum title fp))
    \<and> ((\<forall>item\<in>set lst. ep_e item \<noteq> epnum) \<longrightarrow>
          add_or_update_list fsize fmtime lst sn epnum title fp
            = lst @ [\<lparr> ep_eid = None, ep_s = sn, ep_e = epnum, ep_name = title, ep_file = fp,
                        ep_size = fsize fp, ep_mtime = fmtime fp \<rparr>])
    \<and> (seasons (str_nat sn) = Some lst \<longrightarrow>
          add_or_update_episode fsize fmtime seasons sn epnum title fp (str_nat sn)
            = Some (add_or_update_list fsize fmtime lst sn epnum title fp)
          \<and> (\<forall>k. k \<noteq> str_nat sn \<longrightarrow>
                add_or_update_episode fsize fmtime seasons sn epnum title fp k = seasons k))"
proof (cases "update_episode epnum title fp (fsize fp) (fmtime fp) lst")
  case None
  then have no: "\<forall>item\<in>set lst. ep_e item \<noteq> epnum"
    by (simp add: update_episode_None)
  have eq: "add_or_update_list fsize fmtime lst sn epnum title fp
            = lst @ [\<lparr> ep_eid = None, ep_s = sn, ep_e = epnum, ep_name = title, ep_file = fp,
                        ep_size = fsize fp, ep_mtime = fmtime fp \<rparr>]"
    using None by (simp add: add_or_update_list_def Let_def)
  have d: "distinct (map ep_e (add_or_update_list fsize fmtime lst sn epnum title fp))"
    using assms no by (auto simp: eq)
  show ?thesis
    using d no eq by (auto simp: add_or_update_episode_def Let_def)
next
  case (Some lst')
  then have eq: "add_or_update_list fsize fmtime lst sn epnum title fp = lst'"
    by (simp add: add_or_update_list_def Let_def)
  have n: "map ep_e lst' = map ep_e lst"
    using Some by (rule update_episode_numbers)
  then have len: "length lst' = length lst"
    by (metis length_map)
  have d: "distinct (map ep_e lst')"
    using n assms by simp
  have ex: "\<not> (\<forall>item\<in>set lst. ep_e item \<noteq> epnum)"
    using Some update_episode_None [of epnum title fp "fsize fp" "fmtime fp" lst] by simp
  have upd: "\<forall>item\<in>set lst. ep_e item = epnum \<longrightarrow>
          length lst' = length lst
          \<and> (\<exists>item'\<in>set lst'.
                ep_e item' = epnum
                \<and> ep_file item' = (if fsize fp > ep_size item then fp else ep_file item)
                \<and> ep_size item' = (if fsize fp > ep_size item then fsize fp else ep_size item)
                \<and> ep_mtime item' = (if fsize fp > ep_size item then fmtime fp else ep_mtime item)
                \<and> ep_name item' = (if ep_name item = [] \<and> title \<noteq> [] then title
                                     else ep_name item))"
  proof (intro ballI impI conjI)
    fix item assume i: "item \<in> set lst" "ep_e item = epnum"
    show "length lst' = length lst" by (rule len)
    from update_episode_item [OF Some assms i]
    show "\<exists>item'\<in>set lst'.
                ep_e item' = epnum
                \<and> ep_file item' = (if fsize fp > ep_size item then fp else ep_file item)
                \<and> ep_size item' = (if fsize fp > ep_size item then fsize fp else ep_size item)
                \<and> ep_mtime item' = (if fsize fp > ep_size item then fmtime fp else ep_mtime item)
                \<and> ep_name item' = (if ep_name item = [] \<and> title \<noteq> [] then title
                                     else ep_name item)"
      by blast
  qed
  have oth: "\<forall>item\<in>set lst. ep_e item \<noteq> epnum \<longrightarrow> item \<in> set lst'"
    using update_episode_others [OF Some] by blast
  show ?thesis
    unfolding eq using d upd oth ex by (auto simp: add_or_update_episode_def Let_def eq)
qed

theorem add_or_update_episode_keeps_larger_witness:
  "distinct (map ep_e [demo_item])
   \<and> (\<exists>item'\<in>set (add_or_update_list demo_fsize demo_fmtime [demo_item] 1 2 ''Pilot''
                      ''/lib/shows/Show/Show.S01E02.1080p.mkv'').
         ep_e item' = 2 \<and> ep_file item' = ''/lib/shows/Show/Show.S01E02.1080p.mkv''
         \<and> ep_size item' = 2000000000 \<and> ep_name item' = ''Pilot'')
   \<and> length (add_or_update_list demo_fsize demo_fmtime [demo_item] 1 2 ''Pilot''
                ''/lib/shows/Show/Show.S01E02.1080p.mkv'') = 1
   \<and> (\<exists>item'\<in>set (add_or_update_list demo_fsize demo_fmtime [demo_item] 1 2 ''Pilot''
                      ''/lib/shows/Show/other.mkv'').
         ep_e item' = 2 \<and> ep_file item' = ''/lib/shows/Show/Show.S01E02.mkv''
         \<and> ep_size item' = 700000000 \<and> ep_name item' = ''Pilot'')
   \<and> add_or_update_list demo_fsize demo_fmtime [demo_item] 1 3 ''Next''
        ''/lib/shows/Show/Show.S01E03.mkv''
      = [demo_item, \<lparr> ep_eid = None, ep_s = 1, ep_e = 3, ep_name = ''Next'',
                      ep_file = ''/lib/shows/Show/Show.S01E03.mkv'', ep_size = 0, ep_mtime = 0 \<rparr>]
   \<and> add_or_update_episode demo_fsize demo_fmtime [''1'' \<mapsto> [demo_item]] 1 2 ''Pilot''
        ''/lib/shows/Show/Show.S01E02.1080p.mkv'' ''1''
      = Some (add_or_update_list demo_fsize demo_fmtime [demo_item] 1 2 ''Pilot''
                ''/lib/shows/Show/Show.S01E02.1080p.mkv'')"
proof -
  have d: "distinct (map ep_e [demo_item])" by simp
  have m: "demo_item \<in> set [demo_item]" "ep_e demo_item = 2" "ep_e demo_item \<noteq> 3"
    by (simp_all add: demo_item_def)
  have s1: "str_nat 1 = ''1''" by code_simp
  then have s: "str_nat (Suc 0) = ''1''" by simp
  have k: "[''1'' \<mapsto> [demo_item]] (str_nat 1) = Some [demo_item]" by (simp add: s)
  have v: "demo_fsize ''/lib/shows/Show/Show.S01E02.1080p.mkv'' = 2000000000"
    "demo_fsize ''/lib/shows/Show/other.mkv'' = 0"
    "demo_fsize ''/lib/shows/Show/Show.S01E03.mkv'' = 0"
    "demo_fmtime ''/lib/shows/Show/Show.S01E03.mkv'' = 0"
    "ep_size demo_item = 700000000" "ep_name demo_item = []"
    "ep_file demo_item = ''/lib/shows/Show/Show.S01E02.mkv''"
    by (simp_all add: demo_fsize_def demo_fmtime_def demo_item_def)
  from add_or_update_episode_keeps_larger
         [OF d, of demo_fsize demo_fmtime 1 2 "''Pilot''" "''/lib/shows/Show/Show.S01E02.1080p.mkv''"
            "[''1'' \<mapsto> [demo_item]]"] m k
  have a: "(\<exists>item'\<in>set (add_or_update_list demo_fsize demo_fmtime [demo_item] 1 2 ''Pilot''
                      ''/lib/shows/Show/Show.S01E02.1080p.mkv'').
         ep_e item' = 2 \<and> ep_file item' = ''/lib/shows/Show/Show.S01E02.1080p.mkv''
         \<and> ep_size item' = 2000000000 \<and> ep_name item' = ''Pilot'')
       \<and> length (add_or_update_list demo_fsize demo_fmtime [demo_item] 1 2 ''Pilot''
                ''/lib/shows/Show/Show.S01E02.1080p.mkv'') = 1
       \<and> add_or_update_episode demo_fsize demo_fmtime [''1'' \<mapsto> [demo_item]] 1 2 ''Pilot''
            ''/lib/shows/Show/Show.S01E02.1080p.mkv'' ''1''
          = Some (add_or_update_list demo_fsize demo_fmtime [demo_item] 1 2 ''Pilot''
                ''/lib/shows/Show/Show.S01E02.1080p.mkv'')"
    by (simp add: v s) blast
  from add_or_update_episode_keeps_larger
         [OF d, of demo_fsize demo_fmtime 1 2 "''Pilot''" "''/lib/shows/Show/other.mkv''"] m
  have b: "\<exists>item'\<in>set (add_or_update_list demo_fsize demo_fmtime [demo_item] 1 2 ''Pilot''
                      ''/lib/shows/Show/other.mkv'').
         ep_e item' = 2 \<and> ep_file item' = ''/lib/shows/Show/Show.S01E02.mkv''
         \<and> ep_size item' = 700000000 \<and> ep_name item' = ''Pilot''"
    by (simp add: v) blast
  from add_or_update_episode_keeps_larger
         [OF d, of demo_fsize demo_fmtime 1 3 "''Next''" "''/lib/shows/Show/Show.S01E03.mkv''"] m
  have c: "add_or_update_list demo_fsize demo_fmtime [demo_item] 1 3 ''Next''
        ''/lib/shows/Show/Show.S01E03.mkv''
      = [demo_item, \<lparr> ep_eid = None, ep_s = 1, ep_e = 3, ep_name = ''Next'',
                      ep_file = ''/lib/shows/Show/Show.S01E03.mkv'', ep_size = 0, ep_mtime = 0 \<rparr>]"
    by (simp add: v)
  from d a b c show ?thesis by blast
qed

section \<open>The picker returns the earliest candidate of maximal score\<close>









section \<open>No acceptance threshold: the first search with results is accepted\<close>






section \<open>The score formula\<close>






section \<open>Stand-up and documentary entries are searched like movies\<close>

lemma attempt_calls_grow:
  "\<exists>more. calls (snd (attempt search fy q y st)) = calls st @ more"
  by (auto simp: attempt_def Let_def split: option.splits)

lemma run_attempts_calls_grow:
  "\<exists>more. calls (snd (run_attempts search fy as st)) = calls st @ more"
proof (induction as arbitrary: st)
  case Nil
  then show ?case by simp
next
  case (Cons a as)
  obtain q y where a: "a = (q, y)" by (cases a)
  obtain r1 st1 where at: "attempt search fy q y st = (r1, st1)"
    by (cases "attempt search fy q y st")
  from attempt_calls_grow [of search fy q y st] at
  obtain m1 where m1: "calls st1 = calls st @ m1" by auto
  show ?case
  proof (cases r1)
    case None
    from Cons.IH [of st1] obtain m2 where
      "calls (snd (run_attempts search fy as st1)) = calls st1 @ m2" by blast
    with None a at m1 show ?thesis by simp
  next
    case (Some res)
    with a at m1 show ?thesis by simp
  qed
qed

lemma attempt_first_call:
  assumes "q \<noteq> []"
  shows "calls (snd (attempt search fy q y \<lparr> seen = {}, calls = [] \<rparr>))
           = [(q, if fy then None else y)]"
  using assms by (auto simp: attempt_def Let_def split: option.splits)

lemma try_search_variants_first_call:
  assumes "title \<noteq> []" and "y \<noteq> 0"
  shows "\<exists>more. calls (snd (try_search_variants search title (Some y) False))
                  = (title, Some y) # more"
proof -
  obtain rest where as: "attempts_of title (Some y) False = (title, Some y) # rest"
    using assms(2) by (simp add: attempts_of_def variants_of_def t_base_of_def Let_def)
  obtain r1 st1 where at: "attempt search False title (Some y) \<lparr> seen = {}, calls = [] \<rparr> = (r1, st1)"
    by (cases "attempt search False title (Some y) \<lparr> seen = {}, calls = [] \<rparr>")
  from attempt_first_call [OF assms(1), of search False "Some y"] at
  have c1: "calls st1 = [(title, Some y)]" by simp
  show ?thesis
  proof (cases r1)
    case None
    from run_attempts_calls_grow [of search False rest st1] obtain m where
      "calls (snd (run_attempts search False rest st1)) = calls st1 @ m" by blast
    with None as at c1 show ?thesis by (simp add: try_search_variants_def)
  next
    case (Some res)
    with as at c1 show ?thesis by (simp add: try_search_variants_def)
  qed
qed

lemma attempt_yearless_calls:
  assumes "list_all (\<lambda>c. snd c = None) (calls st)"
  shows "list_all (\<lambda>c. snd c = None) (calls (snd (attempt search True q y st)))"
  using assms by (auto simp: attempt_def Let_def split: option.splits)

lemma run_attempts_yearless_calls:
  assumes "list_all (\<lambda>c. snd c = None) (calls st)"
  shows "list_all (\<lambda>c. snd c = None) (calls (snd (run_attempts search True as st)))"
  using assms
proof (induction as arbitrary: st)
  case Nil
  then show ?case by simp
next
  case (Cons a as)
  obtain q y where a: "a = (q, y)" by (cases a)
  obtain r1 st1 where at: "attempt search True q y st = (r1, st1)"
    by (cases "attempt search True q y st")
  from attempt_yearless_calls [OF Cons.prems, of search q y] at
  have "list_all (\<lambda>c. snd c = None) (calls st1)" by simp
  with Cons.IH [of st1] a at show ?case by (cases r1) simp_all
qed

lemma enrich_single_standup_log:
  "snd (build_site_enrich P [] [] [item] [])
     = calls (snd (try_search_variants (p_search P) (item_title item) (item_year item) False))"
  by (simp add: build_site_enrich_def enrich_movies_def enrich_step_def enrich_entry_def
                search_stage_def entry_or_empty_def empty_entry_def truthy_int_def Let_def
           split: prod.splits option.splits)

text \<open>
  Claim C1 at the stand-up folder "Comedian Title Special 2021", with an empty cache and
  any provider: the first search that \<open>build_site\<close> makes for this entry carries the year
  2021. Searches made with \<open>force_yearless\<close> never carry a year, but no caller sets it.
\<close>

theorem standup_search_carries_year:
  "item_title demo_standup_item = ''Comedian Title Special''
   \<and> item_year demo_standup_item = Some 2021
   \<and> hd (snd (build_site_enrich P [] [] [demo_standup_item] []))
        = (''Comedian Title Special'', Some 2021)
   \<and> list_all (\<lambda>c. snd c = None)
        (calls (snd (try_search_variants (p_search P) ''Comedian Title Special'' (Some 2021) True)))"
proof -
  have p: "parse_title_year_from_folder ''Comedian Title Special 2021''
             = (''Comedian Title Special'', Some 2021)"
    by code_simp
  have t: "item_title demo_standup_item = ''Comedian Title Special''"
    and y: "item_year demo_standup_item = Some 2021"
    by (simp_all add: demo_standup_item_def p)
  have "''Comedian Title Special'' \<noteq> []" and "(2021::int) \<noteq> 0" by simp_all
  from try_search_variants_first_call [OF this, of "p_search P"] obtain more where
    "calls (snd (try_search_variants (p_search P) ''Comedian Title Special'' (Some 2021) False))
       = (''Comedian Title Special'', Some 2021) # more"
    by blast
  then have h: "hd (snd (build_site_enrich P [] [] [demo_standup_item] []))
        = (''Comedian Title Special'', Some 2021)"
    by (simp add: enrich_single_standup_log t y)
  have "list_all (\<lambda>c. snd c = None) (calls \<lparr> seen = {}, calls = [] \<rparr>)" by simp
  from run_attempts_yearless_calls [OF this]
  have l: "list_all (\<lambda>c. snd c = None)
        (calls (snd (try_search_variants (p_search P) ''Comedian Title Special'' (Some 2021) True)))"
    by (simp add: try_search_variants_def)
  from t y h l show ?thesis by blast
qed

section \<open>The show parser recovers season and episode\<close>
lemma digit_val_digit_char: "d < 10 \<Longrightarrow> digit_val (digit_char d) = d"
proof -
  assume "d < 10"
  then have "d \<in> {0, 1, 2, 3, 4, 5, 6, 7, 8, 9}" by auto
  then show ?thesis
    by (auto simp: digit_char_def digit_val_def)
qed

lemma int_of_digits_snoc: "int_of_digits (xs @ [c]) = 10 * int_of_digits xs + digit_val c"
  by (simp add: int_of_digits_def)

lemma int_of_digits_str_nat: "int_of_digits (str_nat n) = n"
proof (induction n rule: str_nat.induct)
  case (1 n)
  show ?case
  proof (cases "n < 10")
    case True
    then show ?thesis
      by (subst str_nat.simps) (simp add: int_of_digits_def digit_val_digit_char)
  next
    case False
    with 1 have "int_of_digits (str_nat (n div 10)) = n div 10" by simp
    with False show ?thesis
      by (subst str_nat.simps) (simp add: int_of_digits_snoc digit_val_digit_char)
  qed
qed

lemma digit_not_space: "is_digit c \<Longrightarrow> \<not> is_space c"
  by (auto simp: is_digit_def is_space_def Let_def)

lemma sep_not_digit: "is_sep c \<Longrightarrow> \<not> is_digit c"
  by (auto simp: is_sep_def is_digit_def)

lemma space_not_digit: "is_space c \<Longrightarrow> \<not> is_digit c"
  by (auto simp: is_digit_def is_space_def Let_def)

lemma digit_is_word: "is_digit c \<Longrightarrow> is_word c"
  by (simp add: is_word_def)

lemma dropWhile_all: "list_all P w \<Longrightarrow> \<not> P x \<Longrightarrow> dropWhile P (w @ x # r) = x # r"
  by (induction w) auto

lemma dropWhile_spaces_seps:
  assumes "list_all is_space w" "list_all is_sep t" "\<not> is_space x" "\<not> is_sep x"
  shows "dropWhile is_sep (dropWhile is_space (w @ t @ x # r)) = x # r"
proof -
  have a: "\<And>t. list_all is_sep t \<Longrightarrow> dropWhile is_sep (dropWhile is_space (t @ x # r)) = x # r"
  proof -
    fix t :: string assume "list_all is_sep t"
    then show "dropWhile is_sep (dropWhile is_space (t @ x # r)) = x # r"
      using assms(3,4) by (induction t) (auto simp: dropWhile_all)
  qed
  from assms(1) have "dropWhile is_space (w @ t @ x # r) = dropWhile is_space (t @ x # r)"
    by (induction w) auto
  with a [OF assms(2)] show ?thesis by simp
qed

lemma take_digits_app:
  assumes "list_all is_digit ds" "length ds = 1 \<or> length ds = 2"
    and "rest = [] \<or> \<not> is_digit (hd rest)"
  shows "take_digits (ds @ rest) = Some (ds, rest)"
proof -
  from assms(2) consider (one) a where "ds = [a]" | (two) a b where "ds = [a, b]"
    by (cases ds; cases "tl ds"; cases "tl (tl ds)") auto
  then show ?thesis
  proof cases
    case one
    with assms show ?thesis by (cases rest) auto
  next
    case two
    with assms show ?thesis by auto
  qed
qed

lemma sxxeyy_at_token:
  assumes "c1 = CHR ''S'' \<or> c1 = CHR ''s''" and "c2 = CHR ''E'' \<or> c2 = CHR ''e''"
    and "list_all is_space w1" "list_all is_space w2" "list_all is_space w3"
    and "list_all is_sep seps"
    and "list_all is_digit ds" "length ds = 1 \<or> length ds = 2"
    and "list_all is_digit de" "length de = 1 \<or> length de = 2"
    and "post = [] \<or> \<not> is_word (hd post)"
  shows "sxxeyy_at False (c1 # w1 @ ds @ w2 @ seps @ c2 # w3 @ de @ post)
           = Some (int_of_digits ds, int_of_digits de, post)"
proof -
  from assms(8) obtain d0 ds' where ds: "ds = d0 # ds'" by (cases ds) auto
  from assms(10) obtain e0 de' where de: "de = e0 # de'" by (cases de) auto
  from assms(7) ds have d0: "is_digit d0" by simp
  from assms(9) de have e0: "is_digit e0" by simp
  have c2n: "\<not> is_space c2" "\<not> is_sep c2" "\<not> is_digit c2"
    using assms(2) by (auto simp: is_space_def is_sep_def is_digit_def)
  have s1: "dropWhile is_space (w1 @ ds @ w2 @ seps @ c2 # w3 @ de @ post)
              = ds @ w2 @ seps @ c2 # w3 @ de @ post"
    using dropWhile_all [OF assms(3) digit_not_space [OF d0]] by (simp add: ds)
  have nd: "w2 @ seps @ c2 # w3 @ de @ post = []
            \<or> \<not> is_digit (hd (w2 @ seps @ c2 # w3 @ de @ post))"
    using assms(4,6) c2n
    by (cases w2; cases seps) (auto simp: space_not_digit sep_not_digit)
  have s2: "take_digits (ds @ w2 @ seps @ c2 # w3 @ de @ post)
              = Some (ds, w2 @ seps @ c2 # w3 @ de @ post)"
    by (rule take_digits_app [OF assms(7,8) nd])
  have s3: "dropWhile is_sep (dropWhile is_space (w2 @ seps @ c2 # w3 @ de @ post))
              = c2 # w3 @ de @ post"
    by (rule dropWhile_spaces_seps [OF assms(4,6) c2n(1,2)])
  have s4: "dropWhile is_space (w3 @ de @ post) = de @ post"
    using dropWhile_all [OF assms(5) digit_not_space [OF e0]] by (simp add: de)
  have pd: "post = [] \<or> \<not> is_digit (hd post)"
    using assms(11) digit_is_word by blast
  have s5: "take_digits (de @ post) = Some (de, post)"
    by (rule take_digits_app [OF assms(9,10) pd])
  have g1: "(False \<or> (c1 \<noteq> CHR ''S'' \<and> c1 \<noteq> CHR ''s'')) = False"
    using assms(1) by auto
  have g2: "(c2 \<noteq> CHR ''E'' \<and> c2 \<noteq> CHR ''e'') = False"
    using assms(2) by auto
  have "sxxeyy_at False (c1 # w1 @ ds @ w2 @ seps @ c2 # w3 @ de @ post)
          = (case post of
               [] \<Rightarrow> Some (int_of_digits ds, int_of_digits de, post)
             | x # _ \<Rightarrow> if is_word x then None
                        else Some (int_of_digits ds, int_of_digits de, post))"
    by (simp only: sxxeyy_at_def list.case option.case prod.case if_False g1 g2 s1 s2 s3 s4 s5)
  with assms(11) show ?thesis
    by (cases post) auto
qed

lemma sxxeyy_search_skip:
  assumes "\<forall>n<length p. sxxeyy_at (rev (take n p) @ acc \<noteq> [] \<and> is_word (hd (rev (take n p) @ acc)))
                            (drop n p @ r) = None"
  shows "sxxeyy_search acc (p @ r) = sxxeyy_search (rev p @ acc) r"
  using assms
proof (induction p arbitrary: acc)
  case Nil
  then show ?case by simp
next
  case (Cons x p)
  from Cons.prems have "sxxeyy_at (rev (take 0 (x # p)) @ acc \<noteq> []
                           \<and> is_word (hd (rev (take 0 (x # p)) @ acc)))
                          (drop 0 (x # p) @ r) = None"
    by blast
  then have h0: "sxxeyy_at (acc \<noteq> [] \<and> is_word (hd acc)) (x # p @ r) = None" by simp
  have "\<forall>n<length p. sxxeyy_at (rev (take n p) @ x # acc \<noteq> []
                           \<and> is_word (hd (rev (take n p) @ x # acc)))
                          (drop n p @ r) = None"
  proof (intro allI impI)
    fix n assume "n < length p"
    then have "Suc n < length (x # p)" by simp
    with Cons.prems have "sxxeyy_at (rev (take (Suc n) (x # p)) @ acc \<noteq> []
                           \<and> is_word (hd (rev (take (Suc n) (x # p)) @ acc)))
                          (drop (Suc n) (x # p) @ r) = None"
      by blast
    then show "sxxeyy_at (rev (take n p) @ x # acc \<noteq> []
                           \<and> is_word (hd (rev (take n p) @ x # acc)))
                          (drop n p @ r) = None"
      by simp
  qed
  from Cons.IH [OF this] h0 show ?case by simp
qed

lemma boundary_take:
  assumes "n < length p"
  shows "(rev (take n p) \<noteq> [] \<and> is_word (hd (rev (take n p))))
           = (n \<noteq> 0 \<and> is_word ((p @ r) ! (n - 1)))"
proof (cases n)
  case 0
  then show ?thesis by simp
next
  case (Suc k)
  with assms have k: "k < length p" by simp
  then have "take (Suc k) p = take k p @ [p ! k]" by (rule take_Suc_conv_app_nth)
  with Suc k show ?thesis by (simp add: nth_append)
qed

lemma sxxeyy_search_first_match:
  assumes "list_all (\<lambda>n. match_at (pre @ rest) n = None) [0..<length pre]"
    and "sxxeyy_at (pre \<noteq> [] \<and> is_word (last pre)) rest = Some (se, ep, post)"
  shows "sxxeyy_search [] (pre @ rest) = Some (pre, se, ep, post)"
proof -
  have "\<forall>n<length pre. sxxeyy_at (rev (take n pre) @ [] \<noteq> []
                           \<and> is_word (hd (rev (take n pre) @ [])))
                          (drop n pre @ rest) = None"
  proof (intro allI impI)
    fix n assume n: "n < length pre"
    with assms(1) have "match_at (pre @ rest) n = None"
      by (simp add: list_all_iff)
    with n boundary_take [OF n, of rest]
    show "sxxeyy_at (rev (take n pre) @ [] \<noteq> [] \<and> is_word (hd (rev (take n pre) @ [])))
            (drop n pre @ rest) = None"
      by (simp add: match_at_def)
  qed
  from sxxeyy_search_skip [OF this]
  have s: "sxxeyy_search [] (pre @ rest) = sxxeyy_search (rev pre) rest" by simp
  from assms(2) obtain c cs where r: "rest = c # cs"
    by (cases rest) (auto simp: sxxeyy_at_def)
  have b: "(rev pre \<noteq> [] \<and> is_word (hd (rev pre))) = (pre \<noteq> [] \<and> is_word (last pre))"
    by (cases "pre = []") (simp_all add: hd_rev)
  from assms(2) r b show ?thesis
    unfolding s by simp
qed

lemma pad2_small: "n < 10 \<Longrightarrow> pad2 n = [CHR ''0'', digit_char n]"
  by (simp add: pad2_def str_nat.simps)

lemma two_digits_value:
  assumes "is_digit d"
  shows "int_of_digits [CHR ''0'', d] = int_of_digits [d]"
  by (simp add: int_of_digits_def digit_val_def)

lemma leading_zero_value: "int_of_digits (CHR ''0'' # xs) = int_of_digits xs"
  by (simp add: int_of_digits_def digit_val_def)

text \<open>
  Claim C6. Let the cleaned file name (dots, underscores and brackets turned into
  spaces, whitespace collapsed, ends stripped) contain a token made of \<open>S\<close> or \<open>s\<close>,
  whitespace, one or two digits, whitespace, separators out of \<open>. - _\<close> and the space,
  \<open>E\<close> or \<open>e\<close>, whitespace, one or two digits, with no word character directly before or
  after it, and let the pattern match at no earlier position. Then the parser returns the
  stripped text before the token as the show, and the numbers the two digit groups denote
  as season and episode; a leading zero does not change such a number. The key of the
  episode is the show id, \<open>_S\<close>, the season in at least two digits, \<open>E\<close>, and the episode in
  at least two digits.
\<close>

theorem parse_show_recovers_season_episode:
  assumes "clean_name text = pre @ c1 # w1 @ ds @ w2 @ seps @ c2 # w3 @ de @ post"
    and "c1 = CHR ''S'' \<or> c1 = CHR ''s''" and "c2 = CHR ''E'' \<or> c2 = CHR ''e''"
    and "list_all is_space w1" "list_all is_space w2" "list_all is_space w3"
    and "list_all is_sep seps"
    and "list_all is_digit ds" "length ds = 1 \<or> length ds = 2"
    and "list_all is_digit de" "length de = 1 \<or> length de = 2"
    and "pre = [] \<or> \<not> is_word (last pre)"
    and "post = [] \<or> \<not> is_word (hd post)"
    and "list_all (\<lambda>n. match_at (clean_name text) n = None) [0..<length pre]"
  shows "(\<exists>t. parse_show_from_string text
               = Some \<lparr> show_name = strip pre, season = int_of_digits ds,
                        episode = int_of_digits de, ep_title = t \<rparr>)
    \<and> int_of_digits (CHR ''0'' # ds) = int_of_digits ds
    \<and> int_of_digits (CHR ''0'' # de) = int_of_digits de
    \<and> episode_key sid (str_nat (int_of_digits ds)) (int_of_digits de)
        = sid @ ''_S'' @ pad2 (int_of_digits ds) @ ''E'' @ pad2 (int_of_digits de)
    \<and> (int_of_digits ds < 10 \<longrightarrow>
          pad2 (int_of_digits ds) = [CHR ''0'', digit_char (int_of_digits ds)])
    \<and> (int_of_digits de < 10 \<longrightarrow>
          pad2 (int_of_digits de) = [CHR ''0'', digit_char (int_of_digits de)])"
proof -
  have b: "(pre \<noteq> [] \<and> is_word (last pre)) = False"
    using assms(12) by auto
  have m: "sxxeyy_at (pre \<noteq> [] \<and> is_word (last pre))
             (c1 # w1 @ ds @ w2 @ seps @ c2 # w3 @ de @ post)
           = Some (int_of_digits ds, int_of_digits de, post)"
    unfolding b by (rule sxxeyy_at_token [OF assms(2-11) assms(13)])
  have f: "list_all (\<lambda>n. match_at (pre @ c1 # w1 @ ds @ w2 @ seps @ c2 # w3 @ de @ post) n = None)
             [0..<length pre]"
    using assms(14) by (simp only: assms(1))
  have "sxxeyy_search [] (clean_name text) = Some (pre, int_of_digits ds, int_of_digits de, post)"
    unfolding assms(1) by (rule sxxeyy_search_first_match [OF f m])
  then have p: "\<exists>t. parse_show_from_string text
               = Some \<lparr> show_name = strip pre, season = int_of_digits ds,
                        episode = int_of_digits de, ep_title = t \<rparr>"
    by (simp add: parse_show_from_string_def Let_def)
  have k: "episode_key sid (str_nat (int_of_digits ds)) (int_of_digits de)
        = sid @ ''_S'' @ pad2 (int_of_digits ds) @ ''E'' @ pad2 (int_of_digits de)"
    by (simp add: episode_key_def int_of_digits_str_nat)
  from p k show ?thesis
    by (simp add: leading_zero_value pad2_small)
qed

theorem parse_show_recovers_season_episode_witness:
  "clean_name ''Show.Name.S01E02.WEBRip.mp4'' = ''Show Name '' @ CHR ''S'' # [] @ ''01'' @ [] @ [] @ CHR ''E'' # [] @ ''02'' @ '' WEBRip mp4''
   \<and> list_all (\<lambda>n. match_at (clean_name ''Show.Name.S01E02.WEBRip.mp4'') n = None) [0..<length ''Show Name '']
   \<and> (\<exists>t. parse_show_from_string ''Show.Name.S01E02.WEBRip.mp4''
             = Some \<lparr> show_name = ''Show Name'', season = 1, episode = 2, ep_title = t \<rparr>)
   \<and> episode_key ''tv1'' (str_nat 1) 2 = ''tv1_S01E02''
   \<and> clean_name ''Show_Name.s1 - e12.720p.mkv'' = ''Show Name '' @ CHR ''s'' # [] @ ''1'' @ '' '' @ ''- '' @ CHR ''e'' # [] @ ''12'' @ '' 720p mkv''
   \<and> (\<exists>t. parse_show_from_string ''Show_Name.s1 - e12.720p.mkv''
             = Some \<lparr> show_name = ''Show Name'', season = 1, episode = 12, ep_title = t \<rparr>)
   \<and> episode_key ''tv1'' (str_nat 1) 12 = ''tv1_S01E12''"
proof -
  have c: "clean_name ''Show.Name.S01E02.WEBRip.mp4''
             = ''Show Name '' @ CHR ''S'' # [] @ ''01'' @ [] @ [] @ CHR ''E'' # [] @ ''02'' @ '' WEBRip mp4''"
    by code_simp
  have f: "list_all (\<lambda>n. match_at (clean_name ''Show.Name.S01E02.WEBRip.mp4'') n = None)
             [0..<length ''Show Name '']"
    by code_simp
  have c': "clean_name ''Show_Name.s1 - e12.720p.mkv''
             = ''Show Name '' @ CHR ''s'' # [] @ ''1'' @ '' '' @ ''- '' @ CHR ''e'' # [] @ ''12'' @ '' 720p mkv''"
    by code_simp
  have f': "list_all (\<lambda>n. match_at (clean_name ''Show_Name.s1 - e12.720p.mkv'') n = None)
             [0..<length ''Show Name '']"
    by code_simp
  have v: "strip ''Show Name '' = ''Show Name''" "int_of_digits ''01'' = 1" "int_of_digits ''02'' = 2"
    "int_of_digits ''1'' = 1" "int_of_digits ''12'' = 12"
    by code_simp+
  have pd: "pad2 1 = ''01''" "pad2 2 = ''02''" "pad2 12 = ''12''"
    by code_simp+
  have w0: "list_all is_space []" "list_all is_sep []" by simp_all
  have w1: "list_all is_space '' ''" "list_all is_sep ''- ''" by code_simp+
  have dg: "list_all is_digit ''01''" "list_all is_digit ''02''" "list_all is_digit ''1''"
    "list_all is_digit ''12''"
    by code_simp+
  have ln: "length ''01'' = 1 \<or> length ''01'' = 2" "length ''02'' = 1 \<or> length ''02'' = 2"
    "length ''1'' = 1 \<or> length ''1'' = 2" "length ''12'' = 1 \<or> length ''12'' = 2"
    by simp_all
  have nw: "\<not> is_word (last ''Show Name '')" "\<not> is_word (hd '' WEBRip mp4'')"
    "\<not> is_word (hd '' 720p mkv'')"
    by code_simp+
  have bp: "''Show Name '' = [] \<or> \<not> is_word (last ''Show Name '')"
    "'' WEBRip mp4'' = [] \<or> \<not> is_word (hd '' WEBRip mp4'')"
    "'' 720p mkv'' = [] \<or> \<not> is_word (hd '' 720p mkv'')"
    using nw by blast+
  have cc: "CHR ''S'' = CHR ''S'' \<or> CHR ''S'' = CHR ''s''" "CHR ''E'' = CHR ''E'' \<or> CHR ''E'' = CHR ''e''"
    "CHR ''s'' = CHR ''S'' \<or> CHR ''s'' = CHR ''s''" "CHR ''e'' = CHR ''E'' \<or> CHR ''e'' = CHR ''e''"
    by simp_all
  note t1 = parse_show_recovers_season_episode
         [of "''Show.Name.S01E02.WEBRip.mp4''" "''Show Name ''" "CHR ''S''" "[]" "''01''" "[]" "[]"
             "CHR ''E''" "[]" "''02''" "'' WEBRip mp4''" "''tv1''",
          OF c cc(1) cc(2) w0(1) w0(1) w0(1) w0(2) dg(1) ln(1) dg(2) ln(2) bp(1) bp(2) f]
  note t2 = parse_show_recovers_season_episode
         [of "''Show_Name.s1 - e12.720p.mkv''" "''Show Name ''" "CHR ''s''" "[]" "''1''" "'' ''" "''- ''"
             "CHR ''e''" "[]" "''12''" "'' 720p mkv''" "''tv1''",
          OF c' cc(3) cc(4) w0(1) w1(1) w0(1) w1(2) dg(3) ln(3) dg(4) ln(4) bp(1) bp(3) f']
  have a1: "\<exists>t. parse_show_from_string ''Show.Name.S01E02.WEBRip.mp4''
             = Some \<lparr> show_name = ''Show Name'', season = 1, episode = 2, ep_title = t \<rparr>"
    using t1 [THEN conjunct1] unfolding v .
  have k1: "episode_key ''tv1'' (str_nat 1) 2 = ''tv1_S01E02''"
    using t1 [THEN conjunct2, THEN conjunct2, THEN conjunct2, THEN conjunct1]
    unfolding v pd by simp
  have a2: "\<exists>t. parse_show_from_string ''Show_Name.s1 - e12.720p.mkv''
             = Some \<lparr> show_name = ''Show Name'', season = 1, episode = 12, ep_title = t \<rparr>"
    using t2 [THEN conjunct1] unfolding v .
  have k2: "episode_key ''tv1'' (str_nat 1) 12 = ''tv1_S01E12''"
    using t2 [THEN conjunct2, THEN conjunct2, THEN conjunct2, THEN conjunct1]
    unfolding v pd by simp
  from c f a1 k1 c' a2 k2 show ?thesis by blast
qed

section \<open>A second enrichment run changes nothing in the movie cache\<close>























































section \<open>Which merges fill only empty fields\<close>













end
